theory Spec2Isabelle
  imports Main
begin

section \<open>Exceptions\<close>

text \<open>
  The exceptions the scraper can meet. \<open>ArticleException\<close> is the class of
  \<^verbatim>\<open>article.py\<close> and carries its message; the others are the built-in
  exceptions Python raises when a markup path is missing (\<open>None.h1\<close>,
  \<open>None['href']\<close>, a missing attribute key, \<open>[][-1]\<close>, an impossible date).
\<close>

datatype exn =
  ArticleException string
  | AttributeError
  | KeyError
  | TypeError
  | IndexError
  | ValueError

text \<open>
  A method that mutates its object and may raise: it returns the outcome together
  with the object as the call left it, so what was written before a raise is kept.
\<close>

type_synonym 's action = "'s \<Rightarrow> (exn + unit) \<times> 's"

text \<open>Statements in sequence: the first raise ends the sequence.\<close>

fun run_steps :: "'s action list \<Rightarrow> 's action" where
  "run_steps [] s = (Inr (), s)"
| "run_steps (f # fs) s =
     (case f s of
        (Inl e, s') \<Rightarrow> (Inl e, s')
      | (Inr u, s') \<Rightarrow> run_steps fs s')"

section \<open>Strings\<close>

text \<open>Python slices \<open>s[:-n]\<close>, \<open>s[-n:]\<close> and \<open>s[n:]\<close> on a string.\<close>

definition drop_last :: "nat \<Rightarrow> string \<Rightarrow> string" where
  "drop_last n s = take (length s - n) s"

definition take_last :: "nat \<Rightarrow> string \<Rightarrow> string" where
  "take_last n s = drop (length s - n) s"

text \<open>The maximal runs of characters that satisfy \<open>P\<close>, left to right.\<close>

fun runs :: "(char \<Rightarrow> bool) \<Rightarrow> string \<Rightarrow> string \<Rightarrow> string list" where
  "runs P cur [] = (if cur = [] then [] else [cur])"
| "runs P cur (c # cs) =
     (if P c then runs P (cur @ [c]) cs
      else (if cur = [] then [] else [cur]) @ runs P [] cs)"

definition is_digit :: "char \<Rightarrow> bool" where
  "is_digit c = (c \<in> set ''0123456789'')"

definition is_space :: "char \<Rightarrow> bool" where
  "is_space c = (c \<in> set [CHR '' '', CHR 0x09, CHR 0x0A, CHR 0x0B, CHR 0x0C, CHR 0x0D])"

definition not_space :: "char \<Rightarrow> bool" where
  "not_space c = (if is_space c then False else True)"

text \<open>\<open>re.findall(r'\d+', s)\<close>: the digit tokens of \<open>s\<close>.\<close>

definition findall_digits :: "string \<Rightarrow> string list" where
  "findall_digits s = runs is_digit [] s"

definition digit_val :: "char \<Rightarrow> int" where
  "digit_val c = int (length (takeWhile (\<lambda>d. d \<noteq> c) ''0123456789''))"

text \<open>\<open>int(tok)\<close> on a digit token.\<close>

definition int_of_digits :: "string \<Rightarrow> int" where
  "int_of_digits tok = foldl (\<lambda>acc c. 10 * acc + digit_val c) 0 tok"

text \<open>The format \<open>%d\<close>.\<close>

fun show_nat :: "nat \<Rightarrow> string" where
  "show_nat n =
     (if n < 10 then [''0123456789'' ! n]
      else show_nat (n div 10) @ [''0123456789'' ! (n mod 10)])"

declare show_nat.simps [simp del]

definition show_int :: "int \<Rightarrow> string" where
  "show_int i = (if i < 0 then CHR ''-'' # show_nat (nat (- i)) else show_nat (nat i))"

section \<open>The markup query layer\<close>

text \<open>
  The parse tree that \<open>BeautifulSoup(data, 'html.parser')\<close> returns: a tag with its
  name, its attributes and its children, or a string of text. The parser itself is
  outside the repository; the queries the scraper makes on the tree are modelled
  below.
\<close>

datatype node =
  Tag string "(string \<times> string) list" "node list"
  | NavigableString string

text \<open>A node followed by everything below it, in document order.\<close>

fun subtree :: "node \<Rightarrow> node list" where
  "subtree (NavigableString s) = [NavigableString s]"
| "subtree (Tag n ats cs) = Tag n ats cs # concat (map subtree cs)"

fun descendants :: "node \<Rightarrow> node list" where
  "descendants (NavigableString s) = []"
| "descendants (Tag n ats cs) = concat (map subtree cs)"

text \<open>\<open>node.text\<close>: the strings below a node, concatenated.\<close>

fun get_text :: "node \<Rightarrow> string" where
  "get_text (NavigableString s) = s"
| "get_text (Tag n ats cs) = concat (map get_text cs)"

fun is_tag :: "string \<Rightarrow> node \<Rightarrow> bool" where
  "is_tag nm (NavigableString s) = False"
| "is_tag nm (Tag n ats cs) = (n = nm)"

fun join_sp :: "string list \<Rightarrow> string" where
  "join_sp [] = []"
| "join_sp [w] = w"
| "join_sp (w # ws) = w @ '' '' @ join_sp ws"

text \<open>
  An attribute filter \<open>{k: v}\<close>. The value of \<open>class\<close> is a list of
  whitespace-separated tokens: the filter matches one of them, or all of them joined.
\<close>

fun has_attr :: "string \<Rightarrow> string \<Rightarrow> node \<Rightarrow> bool" where
  "has_attr k v (NavigableString s) = False"
| "has_attr k v (Tag n ats cs) =
     (case map_of ats k of
        None \<Rightarrow> False
      | Some w \<Rightarrow>
          (if k = ''class''
           then (v \<in> set (runs not_space [] w) \<or> v = join_sp (runs not_space [] w))
           else w = v))"

text \<open>\<open>node.find(nm)\<close>, also written \<open>node.nm\<close>: the first tag of that name below
  the node, or \<open>None\<close>.\<close>

definition first_tag :: "string \<Rightarrow> node \<Rightarrow> node option" where
  "first_tag nm nd = List.find (is_tag nm) (descendants nd)"

text \<open>\<open>node.find(nm, {k: v})\<close>.\<close>

definition find_with :: "string \<Rightarrow> string \<Rightarrow> string \<Rightarrow> node \<Rightarrow> node option" where
  "find_with nm k v nd = List.find (\<lambda>x. is_tag nm x \<and> has_attr k v x) (descendants nd)"

text \<open>\<open>node.find_all(nm)\<close>.\<close>

definition find_all :: "string \<Rightarrow> node \<Rightarrow> node list" where
  "find_all nm nd = filter (is_tag nm) (descendants nd)"

text \<open>\<open>node[k]\<close>: the attribute, \<open>KeyError\<close> when the tag has none of that name.\<close>

fun getitem :: "node \<Rightarrow> string \<Rightarrow> exn + string" where
  "getitem (NavigableString s) k = Inl TypeError"
| "getitem (Tag n ats cs) k =
     (case map_of ats k of None \<Rightarrow> Inl KeyError | Some w \<Rightarrow> Inr w)"

section \<open>The world outside\<close>

text \<open>
  \<open>get_page_html\<close> answers a URL with the page's content or with \<open>None\<close> (a status
  other than 200, or a transport error it swallows); \<open>BeautifulSoup\<close> parses content
  into a tree. Both are collaborators of the scraper and are taken as given.
\<close>

record world =
  get_page_html :: "string \<Rightarrow> string option"
  BeautifulSoup :: "string \<Rightarrow> node"

section \<open>Articles\<close>

record article =
  url :: string
  title :: string
  description :: string
  authors :: string
  publish_date :: string
  text_field :: string
  section_field :: string
  subsection_field :: string
  keywords_field :: "string list"
  characters :: "string list"
  image_url :: string
  html :: string

text \<open>\<open>Article.__init__\<close>; the argument is \<open>None\<close> or a string.\<close>

definition Article_init :: "string option \<Rightarrow> exn + article" where
  "Article_init u =
     (case u of
        None \<Rightarrow> Inl (ArticleException ''ArticleException: Invalid URL'')
      | Some s \<Rightarrow>
          (if s = '''' then Inl (ArticleException ''ArticleException: Invalid URL'')
           else Inr \<lparr>url = s, title = '''', description = '''', authors = '''',
                     publish_date = '''', text_field = '''', section_field = '''',
                     subsection_field = '''', keywords_field = [], characters = [],
                     image_url = '''', html = ''''\<rparr>))"

text \<open>\<open>LaRepubblicaArticle.__init__\<close>: the base initializer, then \<open>url[:-10]\<close>.\<close>

definition LaRepubblicaArticle_init :: "string option \<Rightarrow> exn + article" where
  "LaRepubblicaArticle_init u =
     (case Article_init u of
        Inl e \<Rightarrow> Inl e
      | Inr a \<Rightarrow>
          (case u of
             None \<Rightarrow> Inl TypeError
           | Some s \<Rightarrow> Inr (a\<lparr>url := drop_last 10 s\<rparr>)))"

text \<open>
  \<open>Article.download\<close>: the page behind the url is stored in \<open>html\<close>; no content
  raises. What the fetcher returns is the response's \<open>data\<close>, a bytes object, and
  Python finds no bytes object equal to the string \<open>''\<close>: the second test of the
  source, \<open>html != ''\<close>, holds for every fetched content, an empty body included,
  so every fetched content is stored.
\<close>

definition download :: "world \<Rightarrow> article action" where
  "download W a =
     (case get_page_html W (url a) of
        None \<Rightarrow> (Inl (ArticleException ''ArticleException: Article HTML is empty.''), a)
      | Some h \<Rightarrow> (Inr (), a\<lparr>html := h\<rparr>))"

subsection \<open>The statements of \<open>LaRepubblicaArticle.parse\<close>\<close>

text \<open>
  Each block of the \<open>try\<close> body is one step on the article. \<open>soup\<close> is the parsed
  page; \<open>preview_soup\<close> is \<open>None\<close> for the default \<open>''\<close> and the preview node
  otherwise.
\<close>

definition parse_title :: "node \<Rightarrow> article action" where
  "parse_title soup a =
     (case first_tag ''article'' soup of
        None \<Rightarrow> (Inl AttributeError, a)
      | Some art \<Rightarrow>
          (case first_tag ''h1'' art of
             None \<Rightarrow> (Inl AttributeError, a)
           | Some h \<Rightarrow> (Inr (), a\<lparr>title := get_text h\<rparr>)))"

text \<open>
  In the \<open>elif\<close> branch the source binds the preview's paragraph to the local name
  \<open>description\<close> and leaves the article untouched.
\<close>

definition parse_description :: "node \<Rightarrow> node option \<Rightarrow> article action" where
  "parse_description soup preview_soup a =
     (case find_with ''p'' ''itemprop'' ''description'' soup of
        Some d \<Rightarrow> (Inr (), a\<lparr>description := get_text d\<rparr>)
      | None \<Rightarrow>
          (case preview_soup of
             None \<Rightarrow> (Inr (), a)
           | Some pv \<Rightarrow> (let description_local = first_tag ''p'' pv in (Inr (), a))))"

definition parse_authors :: "node \<Rightarrow> node option \<Rightarrow> article action" where
  "parse_authors soup preview_soup a =
     (case find_with ''em'' ''itemprop'' ''author'' soup of
        Some au \<Rightarrow> (Inr (), a\<lparr>authors := get_text au\<rparr>)
      | None \<Rightarrow>
          (case preview_soup of
             None \<Rightarrow> (Inr (), a)
           | Some pv \<Rightarrow>
               (let authors_local = find_with ''em'' ''class'' ''author'' pv in (Inr (), a))))"

definition parse_date :: "node \<Rightarrow> node option \<Rightarrow> article action" where
  "parse_date soup preview_soup a =
     (case preview_soup of
        Some pv \<Rightarrow>
          (case first_tag ''time'' pv of
             None \<Rightarrow> (Inl AttributeError, a)
           | Some t \<Rightarrow> (Inr (), a\<lparr>publish_date := get_text t\<rparr>))
      | None \<Rightarrow>
          (case find_with ''time'' ''itemprop'' ''datePublished'' soup of
             None \<Rightarrow> (Inl AttributeError, a)
           | Some t \<Rightarrow> (Inr (), a\<lparr>publish_date := get_text t\<rparr>)))"

text \<open>The local \<open>article_body\<close> after its three assignments.\<close>

definition article_body :: "node \<Rightarrow> exn + node option" where
  "article_body soup =
     (let b1 = find_with ''span'' ''itemprop'' ''articleBody'' soup;
          b2 = (if b1 = None then find_with ''div'' ''class'' ''detail_body'' soup else b1)
      in if b2 = None
         then (case find_with ''div'' ''class'' ''body-text'' soup of
                 None \<Rightarrow> Inl AttributeError
               | Some bt \<Rightarrow>
                   (case find_with ''div'' ''class'' ''content'' bt of
                      None \<Rightarrow> Inl AttributeError
                    | Some ct \<Rightarrow> Inr (first_tag ''p'' ct)))
         else Inr b2)"

definition parse_text :: "node \<Rightarrow> article action" where
  "parse_text soup a =
     (case article_body soup of
        Inl e \<Rightarrow> (Inl e, a)
      | Inr None \<Rightarrow> (Inr (), a)
      | Inr (Some b) \<Rightarrow> (Inr (), a\<lparr>text_field := get_text b\<rparr>))"

definition parse_section :: "node \<Rightarrow> article action" where
  "parse_section soup a =
     (let section_logo = find_with ''a'' ''class'' ''section-logo'' soup;
          sport_logo = find_with ''a'' ''class'' ''sport-logo'' soup
      in case section_logo of
           Some s \<Rightarrow> (Inr (), a\<lparr>section_field := get_text s\<rparr>)
         | None \<Rightarrow>
             (case sport_logo of
                Some s \<Rightarrow> (Inr (), a\<lparr>section_field := get_text s\<rparr>)
              | None \<Rightarrow> (Inr (), a)))"

definition parse_subsection :: "node option \<Rightarrow> article action" where
  "parse_subsection preview_soup a =
     (case preview_soup of
        None \<Rightarrow> (Inr (), a)
      | Some pv \<Rightarrow>
          (case first_tag ''span'' pv of
             None \<Rightarrow> (Inl AttributeError, a)
           | Some sp \<Rightarrow> (Inr (), a\<lparr>subsection_field := drop 5 (get_text sp)\<rparr>)))"

text \<open>The two loops append to the lists the article already has.\<close>

definition parse_keywords :: "node \<Rightarrow> article action" where
  "parse_keywords soup a =
     (case find_with ''dl'' ''class'' ''args'' soup of
        None \<Rightarrow>
          (case find_with ''div'' ''class'' ''detail_tag'' soup of
             None \<Rightarrow> (Inr (), a)
           | Some k \<Rightarrow>
               (Inr (), a\<lparr>keywords_field := keywords_field a @ map get_text (find_all ''a'' k)\<rparr>))
      | Some k \<Rightarrow>
          (Inr (), a\<lparr>keywords_field := keywords_field a @ map get_text (find_all ''dd'' k)\<rparr>))"

definition parse_characters :: "node \<Rightarrow> article action" where
  "parse_characters soup a =
     (case find_with ''dl'' ''class'' ''character'' soup of
        None \<Rightarrow> (Inr (), a)
      | Some c \<Rightarrow>
          (Inr (), a\<lparr>characters := characters a @ map get_text (find_all ''dd'' c)\<rparr>))"

definition parse_image :: "node \<Rightarrow> article action" where
  "parse_image soup a =
     (case first_tag ''figure'' soup of
        None \<Rightarrow> (Inr (), a)
      | Some fig \<Rightarrow>
          (case first_tag ''img'' fig of
             None \<Rightarrow> (Inr (), a)
           | Some img \<Rightarrow>
               (case getitem img ''src'' of
                  Inl e \<Rightarrow> (Inl e, a)
                | Inr src \<Rightarrow> (Inr (), a\<lparr>image_url := src\<rparr>))))"

text \<open>The message of the \<open>except\<close> clause, from the article as the \<open>try\<close> left it.\<close>

definition parse_error_msg :: "article \<Rightarrow> string" where
  "parse_error_msg a =
     ''Error: Invalid parsing of article'' @ [CHR 0x22] @ title a @ [CHR 0x22]
       @ '' ('' @ url a @ '')''"

definition parse_steps :: "node \<Rightarrow> node option \<Rightarrow> article action list" where
  "parse_steps soup preview_soup =
     [parse_title soup, parse_description soup preview_soup,
      parse_authors soup preview_soup, parse_date soup preview_soup,
      parse_text soup, parse_section soup, parse_subsection preview_soup,
      parse_keywords soup, parse_characters soup, parse_image soup]"

text \<open>\<open>LaRepubblicaArticle.parse\<close>: the bare \<open>except\<close> turns every exception of the
  body into an \<open>ArticleException\<close>.\<close>

definition parse :: "world \<Rightarrow> node option \<Rightarrow> article action" where
  "parse W preview_soup a =
     (let soup = BeautifulSoup W (html a) in
      case run_steps (parse_steps soup preview_soup) a of
        (Inl e, a') \<Rightarrow> (Inl (ArticleException (parse_error_msg a')), a')
      | (Inr u, a') \<Rightarrow> (Inr (), a'))"

section \<open>Calendar dates\<close>

text \<open>
  \<open>datetime.date\<close> as the scraper uses it: the constructor, which refuses an
  impossible date, the comparison \<open><\<close>, and the sum with \<open>timedelta(days=1)\<close>.
\<close>

record date =
  year :: int
  month :: int
  day :: int

definition is_leap :: "int \<Rightarrow> bool" where
  "is_leap y =
     (if y mod 400 = 0 then True else if y mod 100 = 0 then False else y mod 4 = 0)"

definition days_in_month :: "int \<Rightarrow> int \<Rightarrow> int" where
  "days_in_month y m =
     (if m = 2 then (if is_leap y then 29 else 28)
      else if m \<in> {4, 6, 9, 11} then 30 else 31)"

definition valid_date :: "date \<Rightarrow> bool" where
  "valid_date c =
     (1 \<le> year c \<and> year c \<le> 9999 \<and> 1 \<le> month c \<and> month c \<le> 12
      \<and> 1 \<le> day c \<and> day c \<le> days_in_month (year c) (month c))"

text \<open>\<open>date(year, month, day)\<close>.\<close>

definition mk_date :: "int \<Rightarrow> int \<Rightarrow> int \<Rightarrow> exn + date" where
  "mk_date y m d =
     (if valid_date \<lparr>year = y, month = m, day = d\<rparr>
      then Inr \<lparr>year = y, month = m, day = d\<rparr> else Inl ValueError)"

definition date_less :: "date \<Rightarrow> date \<Rightarrow> bool" where
  "date_less a b =
     (year a < year b
      \<or> (year a = year b \<and> (month a < month b \<or> (month a = month b \<and> day a < day b))))"

text \<open>\<open>current_date + timedelta(days=1)\<close>: the next day of the calendar.\<close>

definition add_day :: "date \<Rightarrow> date" where
  "add_day c =
     (if day c < days_in_month (year c) (month c) then c\<lparr>day := day c + 1\<rparr>
      else if month c < 12 then \<lparr>year = year c, month = month c + 1, day = 1\<rparr>
      else \<lparr>year = year c + 1, month = 1, day = 1\<rparr>)"

text \<open>
  \<open>datespan(start_date, end_date, delta=timedelta(days=1))\<close>, the dates the
  generator yields, in the order it yields them. The step is the one-day default,
  which is also what the extractor passes.
\<close>

function datespan :: "date \<Rightarrow> date \<Rightarrow> date list" where
  "datespan current_date end_date =
     (if date_less current_date end_date
      then current_date # datespan (add_day current_date) end_date
      else [])"
  by pat_completeness auto
termination
proof (relation "measures [\<lambda>(c, e). nat (year e + 1 - year c),
                           \<lambda>(c, e). nat (12 - month c),
                           \<lambda>(c, e). nat (31 - day c)]")
  show "wf (measures [\<lambda>(c, e). nat (year e + 1 - year c),
                      \<lambda>(c, e). nat (12 - month c),
                      \<lambda>(c, e). nat (31 - day c)])"
    by simp
next
  fix current_date end_date :: date
  assume "date_less current_date end_date"
  then have le: "year current_date \<le> year end_date"
    by (auto simp: date_less_def)
  have dim: "days_in_month (year current_date) (month current_date) \<le> 31"
    by (simp add: days_in_month_def)
  show "((add_day current_date, end_date), (current_date, end_date))
          \<in> measures [\<lambda>(c, e). nat (year e + 1 - year c),
                       \<lambda>(c, e). nat (12 - month c),
                       \<lambda>(c, e). nat (31 - day c)]"
    using le dim by (auto simp: add_day_def)
qed

declare datespan.simps [simp del]

section \<open>The extractor\<close>

text \<open>
  The extractor holds the articles it has collected. The records its module's
  \<open>LOGGER\<close> receives are kept beside them.
\<close>

datatype log_record = Debug string | Info string

record extractor =
  articles :: "article list"
  logger :: "log_record list"

definition Extractor_init :: extractor where
  "Extractor_init = \<lparr>articles = [], logger = []\<rparr>"

definition archive_url :: "int \<Rightarrow> int \<Rightarrow> int \<Rightarrow> int \<Rightarrow> string" where
  "archive_url y m d p =
     ''http://ricerca.repubblica.it/repubblica/archivio/repubblica/''
       @ show_int y @ ''/'' @ show_int m @ ''/'' @ show_int d @ ''?page='' @ show_int p"

text \<open>\<open>LaRepubblicaExtractor.archive_size\<close>.\<close>

definition archive_size :: "world \<Rightarrow> int \<Rightarrow> int \<Rightarrow> int \<Rightarrow> exn + int" where
  "archive_size W d m y =
     (case get_page_html W (archive_url y m d 1) of
        None \<Rightarrow> Inr (- 1)
      | Some data \<Rightarrow>
          (case find_with ''div'' ''class'' ''pagination'' (BeautifulSoup W data) of
             None \<Rightarrow> Inl AttributeError
           | Some pagination \<Rightarrow>
               (case first_tag ''p'' pagination of
                  None \<Rightarrow> Inl AttributeError
                | Some p \<Rightarrow>
                    (let toks = findall_digits (get_text p)
                     in if toks = [] then Inl IndexError
                        else Inr (int_of_digits (last toks))))))"

text \<open>\<open>art_html.a['href']\<close>.\<close>

definition href :: "node \<Rightarrow> exn + string" where
  "href art_html =
     (case first_tag ''a'' art_html of
        None \<Rightarrow> Inl TypeError
      | Some l \<Rightarrow> getitem l ''href'')"

text \<open>
  The condition of the \<open>if\<close> in the loop over the entries of a listing page, its
  conjuncts evaluated left to right; a conjunct that dereferences \<open>None\<close> raises.
\<close>

definition is_article_entry :: "node \<Rightarrow> exn + bool" where
  "is_article_entry art_html =
     (case first_tag ''p'' art_html of
        None \<Rightarrow> Inl AttributeError
      | Some p \<Rightarrow>
          (if first_tag ''span'' p \<noteq> None then Inr False
           else
             (case first_tag ''span'' art_html of
                None \<Rightarrow> Inl AttributeError
              | Some sp \<Rightarrow>
                  (if drop 5 (get_text sp) = ''Il Cruciverba'' then Inr False
                   else
                     (case href art_html of
                        Inl e \<Rightarrow> Inl e
                      | Inr h \<Rightarrow>
                          (if take_last 16 h = ''.html?ref=search'' then Inr False
                           else if h = ''https://quotidiano.repubblica.it/edicola/catalogogenerale.jsp?ref=search''
                           then Inr False
                           else
                             (case first_tag ''p'' art_html of
                                None \<Rightarrow> Inr False
                              | Some p' \<Rightarrow> Inr (5 < length (get_text p')))))))))"

text \<open>The body of the \<open>try\<close>: construct the article, download it, parse it.\<close>

definition scrape_entry :: "world \<Rightarrow> node \<Rightarrow> exn + article" where
  "scrape_entry W art_html =
     (case href art_html of
        Inl e \<Rightarrow> Inl e
      | Inr h \<Rightarrow>
          (case LaRepubblicaArticle_init (Some h) of
             Inl e \<Rightarrow> Inl e
           | Inr a \<Rightarrow>
               (case run_steps [download W, parse W (Some art_html)] a of
                  (Inl e, a') \<Rightarrow> Inl e
                | (Inr u, a') \<Rightarrow> Inr a')))"

text \<open>One turn of the loop: the \<open>except\<close> clause catches \<open>ArticleException\<close> only.\<close>

definition visit_entry :: "world \<Rightarrow> node \<Rightarrow> extractor action" where
  "visit_entry W art_html ex =
     (case is_article_entry art_html of
        Inl e \<Rightarrow> (Inl e, ex)
      | Inr ok \<Rightarrow>
          (if ok then
             (case scrape_entry W art_html of
                Inr a \<Rightarrow> (Inr (), ex\<lparr>articles := articles ex @ [a]\<rparr>)
              | Inl (ArticleException msg) \<Rightarrow> (Inr (), ex\<lparr>logger := logger ex @ [Debug msg]\<rparr>)
              | Inl e \<Rightarrow> (Inl e, ex))
           else (Inr (), ex)))"

text \<open>The branch \<open>page_num is not None\<close>.\<close>

definition extract_page :: "world \<Rightarrow> int \<Rightarrow> int \<Rightarrow> int \<Rightarrow> int \<Rightarrow> extractor action" where
  "extract_page W d m y page_num ex =
     (case get_page_html W (archive_url y m d page_num) of
        None \<Rightarrow> (Inr (), ex)
      | Some data \<Rightarrow>
          run_steps (map (visit_entry W) (find_all ''article'' (BeautifulSoup W data))) ex)"

text \<open>The \<open>else\<close> branch: every page from 1 to the archive size.\<close>

definition extract_day :: "world \<Rightarrow> int \<Rightarrow> int \<Rightarrow> int \<Rightarrow> extractor action" where
  "extract_day W d m y ex =
     (case archive_size W d m y of
        Inl e \<Rightarrow> (Inl e, ex)
      | Inr pages \<Rightarrow>
          run_steps (map (extract_page W d m y) [1..pages])
            (ex\<lparr>logger := logger ex @
               [Info (''Extracting articles for '' @ show_int d @ ''-'' @ show_int m
                      @ ''-'' @ show_int y @ ''...'')]\<rparr>))"

text \<open>The \<open>elif\<close> branch: every date of the span.\<close>

definition extract_range ::
  "world \<Rightarrow> int \<Rightarrow> int \<Rightarrow> int \<Rightarrow> int \<Rightarrow> int \<Rightarrow> int \<Rightarrow> extractor action" where
  "extract_range W d m y day_end month_end year_end ex =
     (case mk_date y m d of
        Inl e \<Rightarrow> (Inl e, ex)
      | Inr start_date \<Rightarrow>
          (case mk_date year_end month_end day_end of
             Inl e \<Rightarrow> (Inl e, ex)
           | Inr end_date \<Rightarrow>
               run_steps
                 (map (\<lambda>curr. extract_day W (day curr) (month curr) (year curr))
                    (datespan start_date end_date))
                 ex))"

text \<open>
  \<open>LaRepubblicaExtractor.extract_articles\<close>. Its two recursive calls pass a page
  number, or nothing but the date, so they land in the first and the last branch:
  they are the calls of \<open>extract_page\<close> and \<open>extract_day\<close> above.
\<close>

definition extract_articles ::
  "world \<Rightarrow> int \<Rightarrow> int \<Rightarrow> int \<Rightarrow> int option \<Rightarrow> int option \<Rightarrow> int option \<Rightarrow> int option
     \<Rightarrow> extractor action" where
  "extract_articles W d m y page_num day_end month_end year_end ex =
     (case page_num of
        Some p \<Rightarrow> extract_page W d m y p ex
      | None \<Rightarrow>
          (case (day_end, month_end, year_end) of
             (Some de, Some me, Some ye) \<Rightarrow> extract_range W d m y de me ye ex
           | _ \<Rightarrow> extract_day W d m y ex))"

section \<open>Sample pages\<close>

text \<open>
  A world given by two tables: the pages the fetcher answers with (address and
  content), and the parse tree of each content. An address outside the first table
  is answered with \<open>None\<close>; the contents are named rather than spelled out in HTML.
\<close>

definition sample_world :: "(string \<times> string) list \<Rightarrow> (string \<times> node) list \<Rightarrow> world" where
  "sample_world pages trees =
     \<lparr>get_page_html = map_of pages,
      BeautifulSoup =
        (\<lambda>s. case map_of trees s of None \<Rightarrow> Tag ''[document]'' [] [] | Some t \<Rightarrow> t)\<rparr>"

definition offline :: world where
  "offline = sample_world [] []"

text \<open>An entry of a listing page that passes the exclusion rules.\<close>

definition entry_n :: node where
  "entry_n =
     Tag ''article'' []
       [Tag ''span'' [] [NavigableString ''Rep: Cronaca''],
        Tag ''a'' [(''href'', ''http://x.it/n/?ref=search'')] [NavigableString ''Titolo''],
        Tag ''p'' [] [NavigableString ''Lead paragraph''],
        Tag ''time'' [] [NavigableString ''04 marzo 2015'']]"

text \<open>An entry without a paragraph.\<close>

definition entry_bare :: node where
  "entry_bare =
     Tag ''article'' []
       [Tag ''span'' [] [NavigableString ''Rep: Cronaca''],
        Tag ''a'' [(''href'', ''http://x.it/m/?ref=search'')] [NavigableString ''Senza testo'']]"

text \<open>Article pages: one with a heading and a body, one whose heading is empty.\<close>

definition plain_page :: node where
  "plain_page =
     Tag ''[document]'' []
       [Tag ''article'' []
          [Tag ''h1'' [] [NavigableString ''Titolo''],
           Tag ''span'' [(''itemprop'', ''articleBody'')] [NavigableString ''Body'']]]"

definition untitled_page :: node where
  "untitled_page =
     Tag ''[document]'' []
       [Tag ''article'' []
          [Tag ''h1'' [] [],
           Tag ''span'' [(''itemprop'', ''articleBody'')] [NavigableString ''Body'']]]"

text \<open>A page with keywords and characters, and a page whose first body container
  is there but empty.\<close>

definition tagged_page :: node where
  "tagged_page =
     Tag ''[document]'' []
       [Tag ''article'' []
          [Tag ''h1'' [] [NavigableString ''Titolo''],
           Tag ''time'' [(''itemprop'', ''datePublished'')] [NavigableString ''04 marzo 2015''],
           Tag ''span'' [(''itemprop'', ''articleBody'')] [NavigableString ''Body''],
           Tag ''dl'' [(''class'', ''args'')]
             [Tag ''dd'' [] [NavigableString ''governo''],
              Tag ''dd'' [] [NavigableString ''riforme'']],
           Tag ''dl'' [(''class'', ''character'')]
             [Tag ''dd'' [] [NavigableString ''Mario Rossi'']]]]"

definition hollow_page :: node where
  "hollow_page =
     Tag ''[document]'' []
       [Tag ''article'' []
          [Tag ''h1'' [] [NavigableString ''Titolo''],
           Tag ''time'' [(''itemprop'', ''datePublished'')] [NavigableString ''04 marzo 2015''],
           Tag ''span'' [(''itemprop'', ''articleBody'')] [],
           Tag ''div'' [(''class'', ''detail_body'')] [NavigableString ''Hello world'']]]"

definition legacy_page :: node where
  "legacy_page =
     Tag ''[document]'' []
       [Tag ''article'' []
          [Tag ''h1'' [] [NavigableString ''Titolo''],
           Tag ''time'' [(''itemprop'', ''datePublished'')] [NavigableString ''04 marzo 2015''],
           Tag ''div'' [(''class'', ''detail_body'')] [NavigableString ''Hello world'']]]"

text \<open>A freshly constructed article whose \<open>html\<close> holds the named content.\<close>

definition fresh_article :: "string \<Rightarrow> article" where
  "fresh_article content =
     \<lparr>url = ''http://x.it/n/?'', title = '''', description = '''', authors = '''',
      publish_date = '''', text_field = '''', section_field = '''',
      subsection_field = '''', keywords_field = [], characters = [],
      image_url = '''', html = content\<rparr>"

definition page_world :: world where
  "page_world =
     sample_world []
       [(''plain'', plain_page), (''tagged'', tagged_page), (''hollow'', hollow_page),
        (''legacy'', legacy_page)]"

text \<open>Listing pages: the pagination control, then the entries.\<close>

definition pagination :: "string \<Rightarrow> node" where
  "pagination txt =
     Tag ''div'' [(''class'', ''pagination'')] [Tag ''p'' [] [NavigableString txt]]"

definition listing_world :: "string \<Rightarrow> node list \<Rightarrow> node \<Rightarrow> world" where
  "listing_world txt entries page =
     sample_world
       [(archive_url 2015 3 4 1, ''listing''), (''http://x.it/n/?'', ''article'')]
       [(''listing'', Tag ''[document]'' [] (pagination txt # entries)), (''article'', page)]"

text \<open>Two days of the archive: a listing page without the pagination control, and
  an empty listing.\<close>

definition two_day_world :: world where
  "two_day_world =
     sample_world
       [(archive_url 2015 3 4 1, ''first''), (archive_url 2015 3 5 1, ''second'')]
       [(''first'', Tag ''[document]'' [] [entry_n]),
        (''second'', Tag ''[document]'' [] [pagination ''Pagina 1 di 1''])]"

section \<open>Notions the statements use\<close>

text \<open>
  An article as a successful turn of the listing loop leaves it: its page was
  fetched from its url, the page has an \<open>article\<close> element with an \<open>h1\<close>
  heading, and the title is the text of that heading.
\<close>

definition well_scraped :: "world \<Rightarrow> article \<Rightarrow> bool" where
  "well_scraped W a =
     (get_page_html W (url a) = Some (html a)
      \<and> (case first_tag ''article'' (BeautifulSoup W (html a)) of
            None \<Rightarrow> False
          | Some art \<Rightarrow>
              (case first_tag ''h1'' art of
                 None \<Rightarrow> False
               | Some h \<Rightarrow> title a = get_text h)))"

text \<open>
  A sequence of calls of \<open>extract_articles\<close> on one extractor, each with its
  arguments (day, month, year, page number, end day, end month, end year). A call
  that raises leaves the extractor as it was at the raise, and the next call goes on
  from there.
\<close>

type_synonym call = "int \<times> int \<times> int \<times> int option \<times> int option \<times> int option \<times> int option"

fun extract_many :: "world \<Rightarrow> call list \<Rightarrow> extractor \<Rightarrow> extractor" where
  "extract_many W [] ex = ex"
| "extract_many W ((d, m, y, page_num, day_end, month_end, year_end) # calls) ex =
     extract_many W calls
       (snd (extract_articles W d m y page_num day_end month_end year_end ex))"

text \<open>
  What a reader of the log sees of the traversal: the texts of the \<open>Info\<close> records,
  in the order they were written, and the text the day's traversal writes for a date.
\<close>

fun info_text :: "log_record \<Rightarrow> string list" where
  "info_text (Info s) = [s]"
| "info_text (Debug s) = []"

definition infos :: "extractor \<Rightarrow> string list" where
  "infos ex = concat (map info_text (logger ex))"

definition day_notice :: "date \<Rightarrow> string" where
  "day_notice c =
     ''Extracting articles for '' @ show_int (day c) @ ''-'' @ show_int (month c)
       @ ''-'' @ show_int (year c) @ ''...''"





section \<open>Construction of articles\<close>

text \<open>
  C10. \<open>Article.__init__\<close> raises \<open>ArticleException\<close> exactly when the url is
  \<open>None\<close> or the empty string; for every other string it succeeds, stores the url and
  sets every other field to its empty default.
\<close>

theorem Article_init_raises_iff:
  "((\<exists>msg. Article_init u = Inl (ArticleException msg)) = (u = None \<or> u = Some ''''))
   \<and> ((\<exists>e. Article_init u = Inl e) = (\<exists>msg. Article_init u = Inl (ArticleException msg)))
   \<and> (u = Some s \<and> s \<noteq> '''' \<longrightarrow>
        Article_init u =
          Inr \<lparr>url = s, title = '''', description = '''', authors = '''',
               publish_date = '''', text_field = '''', section_field = '''',
               subsection_field = '''', keywords_field = [], characters = [],
               image_url = '''', html = ''''\<rparr>)"
  by (cases u) (auto simp: Article_init_def)

theorem Article_init_raises_iff_witness:
  "(\<exists>msg. Article_init None = Inl (ArticleException msg))
   \<and> (\<exists>msg. Article_init (Some '''') = Inl (ArticleException msg))
   \<and> Article_init (Some ''http://a.it/b'') =
          Inr \<lparr>url = ''http://a.it/b'', title = '''', description = '''', authors = '''',
               publish_date = '''', text_field = '''', section_field = '''',
               subsection_field = '''', keywords_field = [], characters = [],
               image_url = '''', html = ''''\<rparr>"
  using Article_init_raises_iff [of None "[]"]
    Article_init_raises_iff [of "Some ''''" "[]"]
    Article_init_raises_iff [of "Some ''http://a.it/b''" "''http://a.it/b''"]
  by simp

text \<open>
  \<open>LaRepubblicaArticle.__init__\<close> stores the input address without its last ten
  characters, whatever they are.
\<close>

lemma stored_url_drops_ten:
  "s \<noteq> [] \<Longrightarrow>
     map_sum id url (LaRepubblicaArticle_init (Some s)) = Inr (take (length s - 10) s)"
  by (simp add: LaRepubblicaArticle_init_def Article_init_def drop_last_def)

text \<open>
  C9. An address that carries no query suffix is not stored unchanged: of
  \<open>http://www.repubblica.it/a.html\<close> the constructor stores
  \<open>http://www.repubblica\<close>, cutting ten characters of the address itself. An
  address of at most ten characters is stored as the empty url, which the base
  initializer refuses as an argument.
\<close>

theorem plain_address_is_cut:
  "map_sum id url (LaRepubblicaArticle_init (Some ''http://www.repubblica.it/a.html''))
     = Inr ''http://www.repubblica''
   \<and> ''http://www.repubblica'' \<noteq> ''http://www.repubblica.it/a.html''
   \<and> map_sum id url (LaRepubblicaArticle_init (Some ''http://a'')) = Inr []
   \<and> Article_init (Some []) = Inl (ArticleException ''ArticleException: Invalid URL'')"
  by (simp add: LaRepubblicaArticle_init_def Article_init_def drop_last_def)

section \<open>Statements in sequence\<close>

lemma run_steps_append:
  "run_steps (fs @ gs) s =
     (case run_steps fs s of (Inl e, s') \<Rightarrow> (Inl e, s') | (Inr u, s') \<Rightarrow> run_steps gs s')"
  by (induction fs arbitrary: s) (auto split: prod.splits sum.splits)

text \<open>What every step keeps, the sequence keeps, whether or not it ends in a raise.\<close>

lemma run_steps_preserves:
  assumes "\<And>f s. f \<in> set fs \<Longrightarrow> P s \<Longrightarrow> P (snd (f s))" and "P s"
  shows "P (snd (run_steps fs s))"
  using assms
proof (induction fs arbitrary: s)
  case Nil
  then show ?case by simp
next
  case (Cons f fs)
  have step: "P (snd (f s))" using Cons.prems by simp
  show ?case
  proof (cases "f s")
    case (Pair r s')
    then show ?thesis
      using step Cons.IH [of s'] Cons.prems(1)
      by (cases r) auto
  qed
qed

section \<open>The archive size\<close>

text \<open>
  C5. When the first listing page of a date cannot be fetched, \<open>archive_size\<close>
  returns \<open>-1\<close>, which is not zero, and raises nothing; the day's traversal then
  runs over the empty range of pages, returns normally and leaves the collected
  articles as they were.
\<close>

theorem unavailable_archive_day:
  assumes "get_page_html W (archive_url y m d 1) = None"
  shows "archive_size W d m y = Inr (- 1)
         \<and> archive_size W d m y \<noteq> Inr 0
         \<and> map (extract_page W d m y) [1..(- 1)] = []
         \<and> fst (extract_articles W d m y None None None None ex) = Inr ()
         \<and> articles (snd (extract_articles W d m y None None None None ex)) = articles ex"
  using assms
  by (simp add: archive_size_def extract_articles_def extract_day_def)

theorem unavailable_archive_day_witness:
  "get_page_html offline (archive_url 2015 3 4 1) = None
   \<and> archive_size offline 4 3 2015 = Inr (- 1)
   \<and> fst (extract_articles offline 4 3 2015 None None None None Extractor_init) = Inr ()
   \<and> articles (snd (extract_articles offline 4 3 2015 None None None None Extractor_init)) = []"
proof -
  have unfetched: "get_page_html offline (archive_url 2015 3 4 1) = None"
    by (simp add: offline_def sample_world_def)
  show ?thesis
    using unavailable_archive_day [OF unfetched, of Extractor_init] unfetched
    by (simp add: Extractor_init_def)
qed

section \<open>What each statement of \<open>parse\<close> leaves alone\<close>

text \<open>Every statement writes one field of the article and no other.\<close>

lemma parse_title_frame [simp]:
  "url (snd (parse_title soup a)) = url a"
  "description (snd (parse_title soup a)) = description a"
  "authors (snd (parse_title soup a)) = authors a"
  "publish_date (snd (parse_title soup a)) = publish_date a"
  "text_field (snd (parse_title soup a)) = text_field a"
  "section_field (snd (parse_title soup a)) = section_field a"
  "subsection_field (snd (parse_title soup a)) = subsection_field a"
  "keywords_field (snd (parse_title soup a)) = keywords_field a"
  "characters (snd (parse_title soup a)) = characters a"
  "image_url (snd (parse_title soup a)) = image_url a"
  "html (snd (parse_title soup a)) = html a"
  by (simp_all add: parse_title_def split: option.splits sum.splits)

lemma parse_description_frame [simp]:
  "url (snd (parse_description soup preview_soup a)) = url a"
  "title (snd (parse_description soup preview_soup a)) = title a"
  "authors (snd (parse_description soup preview_soup a)) = authors a"
  "publish_date (snd (parse_description soup preview_soup a)) = publish_date a"
  "text_field (snd (parse_description soup preview_soup a)) = text_field a"
  "section_field (snd (parse_description soup preview_soup a)) = section_field a"
  "subsection_field (snd (parse_description soup preview_soup a)) = subsection_field a"
  "keywords_field (snd (parse_description soup preview_soup a)) = keywords_field a"
  "characters (snd (parse_description soup preview_soup a)) = characters a"
  "image_url (snd (parse_description soup preview_soup a)) = image_url a"
  "html (snd (parse_description soup preview_soup a)) = html a"
  by (simp_all add: parse_description_def Let_def split: option.splits sum.splits)

lemma parse_authors_frame [simp]:
  "url (snd (parse_authors soup preview_soup a)) = url a"
  "title (snd (parse_authors soup preview_soup a)) = title a"
  "description (snd (parse_authors soup preview_soup a)) = description a"
  "publish_date (snd (parse_authors soup preview_soup a)) = publish_date a"
  "text_field (snd (parse_authors soup preview_soup a)) = text_field a"
  "section_field (snd (parse_authors soup preview_soup a)) = section_field a"
  "subsection_field (snd (parse_authors soup preview_soup a)) = subsection_field a"
  "keywords_field (snd (parse_authors soup preview_soup a)) = keywords_field a"
  "characters (snd (parse_authors soup preview_soup a)) = characters a"
  "image_url (snd (parse_authors soup preview_soup a)) = image_url a"
  "html (snd (parse_authors soup preview_soup a)) = html a"
  by (simp_all add: parse_authors_def Let_def split: option.splits sum.splits)

lemma parse_date_frame [simp]:
  "url (snd (parse_date soup preview_soup a)) = url a"
  "title (snd (parse_date soup preview_soup a)) = title a"
  "description (snd (parse_date soup preview_soup a)) = description a"
  "authors (snd (parse_date soup preview_soup a)) = authors a"
  "text_field (snd (parse_date soup preview_soup a)) = text_field a"
  "section_field (snd (parse_date soup preview_soup a)) = section_field a"
  "subsection_field (snd (parse_date soup preview_soup a)) = subsection_field a"
  "keywords_field (snd (parse_date soup preview_soup a)) = keywords_field a"
  "characters (snd (parse_date soup preview_soup a)) = characters a"
  "image_url (snd (parse_date soup preview_soup a)) = image_url a"
  "html (snd (parse_date soup preview_soup a)) = html a"
  by (simp_all add: parse_date_def split: option.splits sum.splits)

lemma parse_text_frame [simp]:
  "url (snd (parse_text soup a)) = url a"
  "title (snd (parse_text soup a)) = title a"
  "description (snd (parse_text soup a)) = description a"
  "authors (snd (parse_text soup a)) = authors a"
  "publish_date (snd (parse_text soup a)) = publish_date a"
  "section_field (snd (parse_text soup a)) = section_field a"
  "subsection_field (snd (parse_text soup a)) = subsection_field a"
  "keywords_field (snd (parse_text soup a)) = keywords_field a"
  "characters (snd (parse_text soup a)) = characters a"
  "image_url (snd (parse_text soup a)) = image_url a"
  "html (snd (parse_text soup a)) = html a"
  by (simp_all add: parse_text_def article_body_def split: option.splits sum.splits)

lemma parse_section_frame [simp]:
  "url (snd (parse_section soup a)) = url a"
  "title (snd (parse_section soup a)) = title a"
  "description (snd (parse_section soup a)) = description a"
  "authors (snd (parse_section soup a)) = authors a"
  "publish_date (snd (parse_section soup a)) = publish_date a"
  "text_field (snd (parse_section soup a)) = text_field a"
  "subsection_field (snd (parse_section soup a)) = subsection_field a"
  "keywords_field (snd (parse_section soup a)) = keywords_field a"
  "characters (snd (parse_section soup a)) = characters a"
  "image_url (snd (parse_section soup a)) = image_url a"
  "html (snd (parse_section soup a)) = html a"
  by (simp_all add: parse_section_def Let_def split: option.splits sum.splits)

lemma parse_subsection_frame [simp]:
  "url (snd (parse_subsection preview_soup a)) = url a"
  "title (snd (parse_subsection preview_soup a)) = title a"
  "description (snd (parse_subsection preview_soup a)) = description a"
  "authors (snd (parse_subsection preview_soup a)) = authors a"
  "publish_date (snd (parse_subsection preview_soup a)) = publish_date a"
  "text_field (snd (parse_subsection preview_soup a)) = text_field a"
  "section_field (snd (parse_subsection preview_soup a)) = section_field a"
  "keywords_field (snd (parse_subsection preview_soup a)) = keywords_field a"
  "characters (snd (parse_subsection preview_soup a)) = characters a"
  "image_url (snd (parse_subsection preview_soup a)) = image_url a"
  "html (snd (parse_subsection preview_soup a)) = html a"
  by (simp_all add: parse_subsection_def split: option.splits sum.splits)

lemma parse_keywords_frame [simp]:
  "url (snd (parse_keywords soup a)) = url a"
  "title (snd (parse_keywords soup a)) = title a"
  "description (snd (parse_keywords soup a)) = description a"
  "authors (snd (parse_keywords soup a)) = authors a"
  "publish_date (snd (parse_keywords soup a)) = publish_date a"
  "text_field (snd (parse_keywords soup a)) = text_field a"
  "section_field (snd (parse_keywords soup a)) = section_field a"
  "subsection_field (snd (parse_keywords soup a)) = subsection_field a"
  "characters (snd (parse_keywords soup a)) = characters a"
  "image_url (snd (parse_keywords soup a)) = image_url a"
  "html (snd (parse_keywords soup a)) = html a"
  by (simp_all add: parse_keywords_def split: option.splits sum.splits)

lemma parse_characters_frame [simp]:
  "url (snd (parse_characters soup a)) = url a"
  "title (snd (parse_characters soup a)) = title a"
  "description (snd (parse_characters soup a)) = description a"
  "authors (snd (parse_characters soup a)) = authors a"
  "publish_date (snd (parse_characters soup a)) = publish_date a"
  "text_field (snd (parse_characters soup a)) = text_field a"
  "section_field (snd (parse_characters soup a)) = section_field a"
  "subsection_field (snd (parse_characters soup a)) = subsection_field a"
  "keywords_field (snd (parse_characters soup a)) = keywords_field a"
  "image_url (snd (parse_characters soup a)) = image_url a"
  "html (snd (parse_characters soup a)) = html a"
  by (simp_all add: parse_characters_def split: option.splits sum.splits)

lemma parse_image_frame [simp]:
  "url (snd (parse_image soup a)) = url a"
  "title (snd (parse_image soup a)) = title a"
  "description (snd (parse_image soup a)) = description a"
  "authors (snd (parse_image soup a)) = authors a"
  "publish_date (snd (parse_image soup a)) = publish_date a"
  "text_field (snd (parse_image soup a)) = text_field a"
  "section_field (snd (parse_image soup a)) = section_field a"
  "subsection_field (snd (parse_image soup a)) = subsection_field a"
  "keywords_field (snd (parse_image soup a)) = keywords_field a"
  "characters (snd (parse_image soup a)) = characters a"
  "html (snd (parse_image soup a)) = html a"
  by (simp_all add: parse_image_def split: option.splits sum.splits)
lemma run_steps_field:
  assumes "\<And>f s. f \<in> set fs \<Longrightarrow> g (snd (f s)) = g s"
  shows "g (snd (run_steps fs s)) = g s"
  using run_steps_preserves [where P = "\<lambda>x. g x = g s" and fs = fs and s = s] assms
  by simp

lemma run_steps_Inr_append:
  assumes "run_steps (fs @ gs) s = (Inr u, s')"
  shows "\<exists>s1. run_steps fs s = (Inr (), s1) \<and> run_steps gs s1 = (Inr u, s')"
  using assms by (auto simp: run_steps_append split: prod.splits sum.splits)

lemma run_steps_Inr_Cons:
  assumes "run_steps (f # fs) s = (Inr u, s')"
  shows "\<exists>s1. f s = (Inr (), s1) \<and> run_steps fs s1 = (Inr u, s')"
  using assms by (auto split: prod.splits sum.splits)

lemma parse_Inr_steps:
  assumes "parse W pv a = (Inr u, a')"
  shows "run_steps (parse_steps (BeautifulSoup W (html a)) pv) a = (Inr (), a')"
  using assms by (auto simp: parse_def Let_def split: prod.splits sum.splits)

lemma parse_url [simp]: "url (snd (parse W pv a)) = url a"
proof -
  have "url (snd (run_steps (parse_steps (BeautifulSoup W (html a)) pv) a)) = url a"
    by (rule run_steps_field) (auto simp: parse_steps_def)
  then show ?thesis
    by (auto simp: parse_def Let_def split: prod.splits sum.splits)
qed

lemma parse_html [simp]: "html (snd (parse W pv a)) = html a"
proof -
  have "html (snd (run_steps (parse_steps (BeautifulSoup W (html a)) pv) a)) = html a"
    by (rule run_steps_field) (auto simp: parse_steps_def)
  then show ?thesis
    by (auto simp: parse_def Let_def split: prod.splits sum.splits)
qed

section \<open>Page counts\<close>

lemma runs_tokens:
  "list_all P cur \<Longrightarrow> tok \<in> set (runs P cur s) \<Longrightarrow> tok \<noteq> [] \<and> list_all P tok"
proof (induction s arbitrary: cur)
  case Nil
  then show ?case by (auto split: if_splits)
next
  case (Cons c s)
  show ?case
  proof (cases "P c")
    case True
    then have "tok \<in> set (runs P (cur @ [c]) s)" using Cons.prems by simp
    moreover have "list_all P (cur @ [c])" using True Cons.prems by simp
    ultimately show ?thesis by (rule Cons.IH [rotated])
  next
    case False
    then have "tok = cur \<and> cur \<noteq> [] \<or> tok \<in> set (runs P [] s)"
      using Cons.prems by (auto split: if_splits)
    then show ?thesis
    proof
      assume "tok = cur \<and> cur \<noteq> []"
      then show ?thesis using Cons.prems by simp
    next
      assume "tok \<in> set (runs P [] s)"
      then show ?thesis using Cons.IH [of "[]"] by simp
    qed
  qed
qed

lemma findall_digits_tokens:
  "tok \<in> set (findall_digits s) \<Longrightarrow> tok \<noteq> [] \<and> list_all is_digit tok"
  using runs_tokens [of is_digit "[]" tok s] by (simp add: findall_digits_def)

lemma int_of_digits_foldl_nonneg:
  "0 \<le> acc \<Longrightarrow> 0 \<le> foldl (\<lambda>acc c. 10 * acc + digit_val c) acc tok"
  by (induction tok arbitrary: acc) (simp_all add: digit_val_def)

lemma int_of_digits_nonneg: "0 \<le> int_of_digits tok"
  unfolding int_of_digits_def by (rule int_of_digits_foldl_nonneg) simp

text \<open>
  C4. On a fetched first listing page, \<open>archive_size\<close> returns the last digit token
  of the text of the pagination element's paragraph, read as a number; it returns at
  all only when the pagination element, its paragraph and a digit token are there
  (otherwise it raises), and what it returns is never negative.
\<close>

theorem archive_size_last_token:
  assumes "get_page_html W (archive_url y m d 1) = Some data"
  shows "(\<forall>pg par.
            find_with ''div'' ''class'' ''pagination'' (BeautifulSoup W data) = Some pg
            \<and> first_tag ''p'' pg = Some par \<and> findall_digits (get_text par) \<noteq> []
            \<longrightarrow> archive_size W d m y
                  = Inr (int_of_digits (last (findall_digits (get_text par)))))
         \<and> (\<forall>n. archive_size W d m y = Inr n \<longrightarrow>
               0 \<le> n
               \<and> (\<exists>pg par.
                     find_with ''div'' ''class'' ''pagination'' (BeautifulSoup W data) = Some pg
                     \<and> first_tag ''p'' pg = Some par
                     \<and> findall_digits (get_text par) \<noteq> []))"
  using assms
  by (auto simp: archive_size_def Let_def int_of_digits_nonneg
           split: option.splits if_splits)

theorem archive_size_last_token_witness:
  "get_page_html (listing_world ''Pagina 1 di 25'' [] plain_page) (archive_url 2015 3 4 1)
     = Some ''listing''
   \<and> archive_size (listing_world ''Pagina 1 di 25'' [] plain_page) 4 3 2015 = Inr 25"
proof -
  have fetched:
    "get_page_html (listing_world ''Pagina 1 di 25'' [] plain_page) (archive_url 2015 3 4 1)
       = Some ''listing''"
    by (simp add: listing_world_def sample_world_def)
  have pg: "find_with ''div'' ''class'' ''pagination''
              (BeautifulSoup (listing_world ''Pagina 1 di 25'' [] plain_page) ''listing'')
            = Some (pagination ''Pagina 1 di 25'')"
    by code_simp
  have par: "first_tag ''p'' (pagination ''Pagina 1 di 25'')
             = Some (Tag ''p'' [] [NavigableString ''Pagina 1 di 25''])"
    by code_simp
  have toks: "findall_digits (get_text (Tag ''p'' [] [NavigableString ''Pagina 1 di 25'']))
              = [''1'', ''25'']"
    by code_simp
  have val: "int_of_digits ''25'' = 25"
    by code_simp
  show ?thesis
    using archive_size_last_token [OF fetched] pg par toks val fetched
    by simp
qed

text \<open>
  The last token is not the largest one: on the text \<open>Pagine 10, pagina 2\<close> the
  largest number is 10 and \<open>archive_size\<close> returns 2.
\<close>

theorem last_token_not_largest:
  "archive_size (listing_world ''Pagine 10, pagina 2'' [] plain_page) 4 3 2015 = Inr 2
   \<and> Max (set (map int_of_digits (findall_digits ''Pagine 10, pagina 2''))) = 10"
  by code_simp

section \<open>The fields \<open>parse\<close> fills\<close>

lemma parse_steps_split:
  "parse_steps soup pv =
     [parse_title soup, parse_description soup pv, parse_authors soup pv, parse_date soup pv]
     @ parse_text soup
     # [parse_section soup, parse_subsection pv, parse_keywords soup,
        parse_characters soup, parse_image soup]"
  by (simp add: parse_steps_def)

text \<open>
  C6. After a successful \<open>parse\<close> the body text comes from the first container that
  is present, in the order: the \<open>articleBody\<close> span, the \<open>detail_body\<close> division,
  the first paragraph of the \<open>content\<close> division inside the \<open>body-text\<close> division.
  A container that is present is used even when its text is empty. When the first
  two are absent the nested divisions are there (without them \<open>parse\<close> raises), and
  the text keeps its former value if they hold no paragraph.
\<close>

theorem text_from_first_present_container:
  assumes "parse W pv a = (Inr (), a')"
  shows "(\<forall>b. find_with ''span'' ''itemprop'' ''articleBody'' (BeautifulSoup W (html a)) = Some b
              \<longrightarrow> text_field a' = get_text b)
         \<and> (\<forall>b. find_with ''span'' ''itemprop'' ''articleBody'' (BeautifulSoup W (html a)) = None
                \<and> find_with ''div'' ''class'' ''detail_body'' (BeautifulSoup W (html a)) = Some b
              \<longrightarrow> text_field a' = get_text b)
         \<and> (find_with ''span'' ''itemprop'' ''articleBody'' (BeautifulSoup W (html a)) = None
             \<and> find_with ''div'' ''class'' ''detail_body'' (BeautifulSoup W (html a)) = None
              \<longrightarrow> (\<exists>bt ct.
                     find_with ''div'' ''class'' ''body-text'' (BeautifulSoup W (html a)) = Some bt
                     \<and> find_with ''div'' ''class'' ''content'' bt = Some ct
                     \<and> text_field a'
                         = (case first_tag ''p'' ct of
                              None \<Rightarrow> text_field a
                            | Some b \<Rightarrow> get_text b)))"
proof -
  define soup where "soup = BeautifulSoup W (html a)"
  define pre where
    "pre = [parse_title soup, parse_description soup pv, parse_authors soup pv,
            parse_date soup pv]"
  define post where
    "post = [parse_section soup, parse_subsection pv, parse_keywords soup,
             parse_characters soup, parse_image soup]"
  have whole: "run_steps (pre @ parse_text soup # post) a = (Inr (), a')"
    using parse_Inr_steps [OF assms] by (simp add: parse_steps_split soup_def pre_def post_def)
  obtain s1 where s1: "run_steps pre a = (Inr (), s1)"
    and rest: "run_steps (parse_text soup # post) s1 = (Inr (), a')"
    using run_steps_Inr_append [OF whole] by auto
  obtain s2 where s2: "parse_text soup s1 = (Inr (), s2)"
    and tail: "run_steps post s2 = (Inr (), a')"
    using run_steps_Inr_Cons [OF rest] by auto
  have "text_field (snd (run_steps pre a)) = text_field a"
    by (rule run_steps_field) (auto simp: pre_def)
  then have before: "text_field s1 = text_field a"
    using s1 by simp
  have "text_field (snd (run_steps post s2)) = text_field s2"
    by (rule run_steps_field) (auto simp: post_def)
  then have after: "text_field a' = text_field s2"
    using tail by simp
  show ?thesis
    using s2 before after
    unfolding soup_def [symmetric]
    by (auto simp: parse_text_def article_body_def Let_def
             split: option.splits sum.splits if_splits)
qed

theorem text_from_first_present_container_witness:
  "parse page_world None (fresh_article ''legacy'')
     = (Inr (), (fresh_article ''legacy'')
          \<lparr>title := ''Titolo'', publish_date := ''04 marzo 2015'',
           text_field := ''Hello world''\<rparr>)
   \<and> find_with ''span'' ''itemprop'' ''articleBody''
         (BeautifulSoup page_world (html (fresh_article ''legacy''))) = None
   \<and> map_option get_text
         (find_with ''div'' ''class'' ''detail_body''
            (BeautifulSoup page_world (html (fresh_article ''legacy''))))
       = Some ''Hello world''"
proof -
  have run: "parse page_world None (fresh_article ''legacy'')
     = (Inr (), (fresh_article ''legacy'')
          \<lparr>title := ''Titolo'', publish_date := ''04 marzo 2015'',
           text_field := ''Hello world''\<rparr>)"
    by code_simp
  have span: "find_with ''span'' ''itemprop'' ''articleBody''
         (BeautifulSoup page_world (html (fresh_article ''legacy''))) = None"
    by code_simp
  have division: "map_option get_text
         (find_with ''div'' ''class'' ''detail_body''
            (BeautifulSoup page_world (html (fresh_article ''legacy''))))
       = Some ''Hello world''"
    by code_simp
  show ?thesis
    using text_from_first_present_container [OF run] run span division
    by simp
qed

text \<open>
  An empty container is not passed over: on a page whose \<open>articleBody\<close> span is
  empty and whose \<open>detail_body\<close> division reads \<open>Hello world\<close>, the text stays
  empty.
\<close>

theorem empty_container_is_used:
  "fst (parse page_world None (fresh_article ''hollow'')) = Inr ()
   \<and> text_field (snd (parse page_world None (fresh_article ''hollow''))) = []
   \<and> map_option get_text (find_with ''span'' ''itemprop'' ''articleBody'' hollow_page) = Some []
   \<and> map_option get_text (find_with ''div'' ''class'' ''detail_body'' hollow_page)
       = Some ''Hello world''"
  by code_simp

text \<open>
  Without the \<open>description\<close> paragraph on the page, \<open>parse\<close> leaves the description
  as it was, with or without a preview.
\<close>

lemma description_not_backfilled:
  assumes "find_with ''p'' ''itemprop'' ''description'' (BeautifulSoup W (html a)) = None"
  shows "description (snd (parse W pv a)) = description a"
proof -
  have "description (snd (run_steps (parse_steps (BeautifulSoup W (html a)) pv) a))
        = description a"
    by (rule run_steps_field)
       (use assms in \<open>auto simp: parse_steps_def parse_description_def split: option.splits\<close>)
  then show ?thesis
    by (auto simp: parse_def Let_def split: prod.splits sum.splits)
qed

text \<open>
  C7. On a page without the \<open>description\<close> paragraph, parsed with a preview whose
  first paragraph reads \<open>Lead paragraph\<close>, \<open>parse\<close> succeeds and the description is
  still empty: the preview's paragraph is looked up and never stored.
\<close>

theorem description_stays_empty:
  "fst (parse page_world (Some entry_n) (fresh_article ''plain'')) = Inr ()
   \<and> find_with ''p'' ''itemprop'' ''description'' plain_page = None
   \<and> map_option get_text (first_tag ''p'' entry_n) = Some ''Lead paragraph''
   \<and> description (snd (parse page_world (Some entry_n) (fresh_article ''plain''))) = []"
  by code_simp

section \<open>One entry of a listing page\<close>

lemma is_article_entry_href:
  assumes "is_article_entry e = Inr True"
  shows "\<exists>h. href e = Inr h"
  using assms
  by (auto simp: is_article_entry_def split: option.splits if_splits sum.splits)

lemma LaRepubblicaArticle_init_raises:
  "LaRepubblicaArticle_init (Some h) = Inl x \<Longrightarrow> \<exists>msg. x = ArticleException msg"
  by (auto simp: LaRepubblicaArticle_init_def Article_init_def split: if_splits)

lemma download_raises:
  "download W a = (Inl x, a') \<Longrightarrow> \<exists>msg. x = ArticleException msg"
  by (auto simp: download_def split: option.splits)

lemma parse_raises:
  "parse W pv a = (Inl x, a') \<Longrightarrow> \<exists>msg. x = ArticleException msg"
  by (auto simp: parse_def Let_def split: prod.splits sum.splits)

text \<open>Once the exclusion rules have let an entry through, whatever its scraping
  raises is an \<open>ArticleException\<close>.\<close>

lemma scrape_entry_raises:
  assumes "is_article_entry e = Inr True" and "scrape_entry W e = Inl x"
  shows "\<exists>msg. x = ArticleException msg"
proof -
  obtain h where h: "href e = Inr h"
    using is_article_entry_href [OF assms(1)] by auto
  show ?thesis
  proof (cases "LaRepubblicaArticle_init (Some h)")
    case (Inl y)
    then show ?thesis
      using assms(2) h LaRepubblicaArticle_init_raises [of h y]
      by (simp add: scrape_entry_def)
  next
    case (Inr a)
    show ?thesis
    proof (cases "download W a")
      case (Pair r a1)
      show ?thesis
      proof (cases r)
        case (Inl y)
        then show ?thesis
          using assms(2) h Inr Pair download_raises [of W a y a1]
          by (simp add: scrape_entry_def)
      next
        case r: (Inr u)
        show ?thesis
        proof (cases "parse W (Some e) a1")
          case p: (Pair r2 a2)
          then show ?thesis
            using assms(2) h Inr Pair r parse_raises [of W "Some e" a1 x a2]
            by (cases r2) (simp_all add: scrape_entry_def)
        qed
      qed
    qed
  qed
qed

text \<open>So a turn of the loop raises only what the exclusion rules raise, ...\<close>

lemma visit_entry_raises:
  assumes "fst (visit_entry W e ex) = Inl x"
  shows "is_article_entry e = Inl x"
proof (cases "is_article_entry e")
  case (Inl y)
  then show ?thesis using assms by (simp add: visit_entry_def)
next
  case (Inr ok)
  show ?thesis
  proof (cases ok)
    case False
    then show ?thesis using assms Inr by (simp add: visit_entry_def)
  next
    case True
    show ?thesis
    proof (cases "scrape_entry W e")
      case (Inl y)
      then obtain msg where "y = ArticleException msg"
        using scrape_entry_raises [of e W y] Inr True by auto
      then show ?thesis
        using assms Inr True Inl by (simp add: visit_entry_def)
    next
      case r: (Inr a)
      then show ?thesis
        using assms Inr True by (simp add: visit_entry_def)
    qed
  qed
qed

text \<open>... and a failed download or parse of an admitted entry is logged and passed
  over.\<close>

lemma visit_entry_logs:
  assumes "is_article_entry e = Inr True" and "scrape_entry W e = Inl (ArticleException msg)"
  shows "visit_entry W e ex = (Inr (), ex\<lparr>logger := logger ex @ [Debug msg]\<rparr>)"
  using assms by (simp add: visit_entry_def)

text \<open>
  C3. A listing page whose first entry has no paragraph and whose second entry is a
  regular one: the exclusion rules raise \<open>AttributeError\<close> on the first entry, outside
  the \<open>try\<close>, so the page's traversal ends there with that exception, nothing is
  logged and the second entry is never scraped. On its own the second entry yields
  an article.
\<close>

theorem bare_entry_aborts_page:
  "is_article_entry entry_bare = Inl AttributeError
   \<and> extract_articles (listing_world ''Pagina 1 di 1'' [entry_bare, entry_n] plain_page)
         4 3 2015 (Some 1) None None None Extractor_init
       = (Inl AttributeError, Extractor_init)
   \<and> map url (articles (snd
         (extract_articles (listing_world ''Pagina 1 di 1'' [entry_n] plain_page)
            4 3 2015 (Some 1) None None None Extractor_init)))
       = [''http://x.it/n/?'']"
  by code_simp

section \<open>The collected articles\<close>

lemma parse_Inr_title:
  assumes "parse W pv a = (Inr u, a')"
  shows "case first_tag ''article'' (BeautifulSoup W (html a)) of
           None \<Rightarrow> False
         | Some art \<Rightarrow>
             (case first_tag ''h1'' art of None \<Rightarrow> False | Some h \<Rightarrow> title a' = get_text h)"
proof -
  define soup where "soup = BeautifulSoup W (html a)"
  define rest where
    "rest = [parse_description soup pv, parse_authors soup pv, parse_date soup pv,
             parse_text soup, parse_section soup, parse_subsection pv,
             parse_keywords soup, parse_characters soup, parse_image soup]"
  have whole: "run_steps (parse_title soup # rest) a = (Inr (), a')"
    using parse_Inr_steps [OF assms] by (simp add: parse_steps_def soup_def rest_def)
  obtain s1 where s1: "parse_title soup a = (Inr (), s1)"
    and tail: "run_steps rest s1 = (Inr (), a')"
    using run_steps_Inr_Cons [OF whole] by auto
  have "title (snd (run_steps rest s1)) = title s1"
    by (rule run_steps_field) (auto simp: rest_def)
  then have "title a' = title s1"
    using tail by simp
  then show ?thesis
    using s1 unfolding soup_def [symmetric]
    by (auto simp: parse_title_def split: option.splits)
qed

lemma download_Inr:
  assumes "download W a = (Inr u, a1)"
  shows "get_page_html W (url a) = Some (html a1) \<and> url a1 = url a"
  using assms by (auto simp: download_def split: option.splits)

lemma scrape_entry_well_scraped:
  assumes "scrape_entry W e = Inr a"
  shows "well_scraped W a"
proof -
  from assms obtain h a0 where "LaRepubblicaArticle_init (Some h) = Inr a0"
    and run: "run_steps [download W, parse W (Some e)] a0 = (Inr (), a)"
    by (auto simp: scrape_entry_def split: sum.splits prod.splits)
  obtain a1 where d: "download W a0 = (Inr (), a1)"
    and rest: "run_steps [parse W (Some e)] a1 = (Inr (), a)"
    using run_steps_Inr_Cons [OF run] by auto
  have p: "parse W (Some e) a1 = (Inr (), a)"
    using rest by (auto split: prod.splits sum.splits)
  have same: "url a = url a1" "html a = html a1"
    using parse_url [of W "Some e" a1] parse_html [of W "Some e" a1] p by simp_all
  show ?thesis
    using download_Inr [OF d] parse_Inr_title [OF p] same
    by (simp add: well_scraped_def)
qed

lemma visit_entry_keeps:
  assumes "list_all (well_scraped W) (articles ex)"
  shows "list_all (well_scraped W) (articles (snd (visit_entry W e ex)))"
  using assms scrape_entry_well_scraped [of W e]
  by (auto simp: visit_entry_def split: sum.splits exn.splits)

lemma extract_page_keeps:
  assumes "list_all (well_scraped W) (articles ex)"
  shows "list_all (well_scraped W) (articles (snd (extract_page W d m y p ex)))"
proof (cases "get_page_html W (archive_url y m d p)")
  case None
  then show ?thesis using assms by (simp add: extract_page_def)
next
  case (Some data)
  have "list_all (well_scraped W)
          (articles (snd (run_steps
             (map (visit_entry W) (find_all ''article'' (BeautifulSoup W data))) ex)))"
    by (rule run_steps_preserves [where P = "\<lambda>x. list_all (well_scraped W) (articles x)"])
       (use assms visit_entry_keeps in auto)
  then show ?thesis using Some by (simp add: extract_page_def)
qed

lemma extract_day_keeps:
  assumes "list_all (well_scraped W) (articles ex)"
  shows "list_all (well_scraped W) (articles (snd (extract_day W d m y ex)))"
proof (cases "archive_size W d m y")
  case (Inl e)
  then show ?thesis using assms by (simp add: extract_day_def)
next
  case (Inr pages)
  have "list_all (well_scraped W)
          (articles (snd (run_steps (map (extract_page W d m y) [1..pages])
             (ex\<lparr>logger := logger ex @
               [Info (''Extracting articles for '' @ show_int d @ ''-'' @ show_int m
                      @ ''-'' @ show_int y @ ''...'')]\<rparr>))))"
    by (rule run_steps_preserves [where P = "\<lambda>x. list_all (well_scraped W) (articles x)"])
       (use assms extract_page_keeps in auto)
  then show ?thesis using Inr by (simp add: extract_day_def)
qed

lemma extract_range_keeps:
  assumes "list_all (well_scraped W) (articles ex)"
  shows "list_all (well_scraped W) (articles (snd (extract_range W d m y de me ye ex)))"
proof (cases "mk_date y m d")
  case (Inl e)
  then show ?thesis using assms by (simp add: extract_range_def)
next
  case start: (Inr start_date)
  show ?thesis
  proof (cases "mk_date ye me de")
    case (Inl e)
    then show ?thesis using assms start by (simp add: extract_range_def)
  next
    case (Inr end_date)
    have "list_all (well_scraped W)
            (articles (snd (run_steps
               (map (\<lambda>curr. extract_day W (day curr) (month curr) (year curr))
                  (datespan start_date end_date)) ex)))"
      by (rule run_steps_preserves [where P = "\<lambda>x. list_all (well_scraped W) (articles x)"])
         (use assms extract_day_keeps in auto)
    then show ?thesis using start Inr by (simp add: extract_range_def)
  qed
qed

lemma extract_articles_keeps:
  assumes "list_all (well_scraped W) (articles ex)"
  shows "list_all (well_scraped W)
           (articles (snd (extract_articles W d m y pn de me ye ex)))"
  using extract_page_keeps [OF assms] extract_day_keeps [OF assms]
    extract_range_keeps [OF assms]
  by (auto simp: extract_articles_def split: option.splits)

lemma extract_many_keeps:
  assumes "list_all (well_scraped W) (articles ex)"
  shows "list_all (well_scraped W) (articles (extract_many W calls ex))"
  using assms
proof (induction calls arbitrary: ex)
  case Nil
  then show ?case by simp
next
  case (Cons c calls)
  obtain d m y pn de me ye where c: "c = (d, m, y, pn, de, me, ye)"
    by (cases c) auto
  show ?case
    unfolding c extract_many.simps
    by (rule Cons.IH) (rule extract_articles_keeps [OF Cons.prems])
qed

lemma well_scraped_url:
  assumes "get_page_html W [] = None" and "well_scraped W a"
  shows "url a \<noteq> []"
  using assms by (auto simp: well_scraped_def)

text \<open>
  C1. After any sequence of \<open>extract_articles\<close> calls on a new extractor, every
  collected article was fetched from its url, its page has an \<open>article\<close> element
  with an \<open>h1\<close> heading, and its title is the text of that heading (which may be
  empty). Its url is not empty as long as the fetcher answers the empty address with
  nothing.
\<close>

theorem collected_articles_well_scraped:
  "list_all (well_scraped W) (articles (extract_many W calls Extractor_init))
   \<and> (get_page_html W [] = None
      \<longrightarrow> list_all (\<lambda>a. url a \<noteq> []) (articles (extract_many W calls Extractor_init)))"
proof -
  have all: "list_all (well_scraped W) (articles (extract_many W calls Extractor_init))"
    by (rule extract_many_keeps) (simp add: Extractor_init_def)
  then show ?thesis
    using well_scraped_url [of W] by (auto simp: list_all_iff)
qed

theorem collected_articles_well_scraped_witness:
  "get_page_html (listing_world ''Pagina 1 di 1'' [entry_n] plain_page) [] = None
   \<and> map title (articles (extract_many (listing_world ''Pagina 1 di 1'' [entry_n] plain_page)
        [(4, 3, 2015, Some 1, None, None, None)] Extractor_init)) = [''Titolo'']
   \<and> list_all (well_scraped (listing_world ''Pagina 1 di 1'' [entry_n] plain_page))
       (articles (extract_many (listing_world ''Pagina 1 di 1'' [entry_n] plain_page)
          [(4, 3, 2015, Some 1, None, None, None)] Extractor_init))
   \<and> list_all (\<lambda>a. url a \<noteq> [])
       (articles (extract_many (listing_world ''Pagina 1 di 1'' [entry_n] plain_page)
          [(4, 3, 2015, Some 1, None, None, None)] Extractor_init))"
proof -
  have unanswered: "get_page_html (listing_world ''Pagina 1 di 1'' [entry_n] plain_page) [] = None"
    by code_simp
  have titles: "map title (articles (extract_many
        (listing_world ''Pagina 1 di 1'' [entry_n] plain_page)
        [(4, 3, 2015, Some 1, None, None, None)] Extractor_init)) = [''Titolo'']"
    by code_simp
  note main = collected_articles_well_scraped
      [of "listing_world ''Pagina 1 di 1'' [entry_n] plain_page"
          "[(4, 3, 2015, Some 1, None, None, None)]"]
  have scraped: "list_all (well_scraped (listing_world ''Pagina 1 di 1'' [entry_n] plain_page))
       (articles (extract_many (listing_world ''Pagina 1 di 1'' [entry_n] plain_page)
          [(4, 3, 2015, Some 1, None, None, None)] Extractor_init))"
    using main by (rule conjunct1)
  have addressed: "list_all (\<lambda>a. url a \<noteq> [])
       (articles (extract_many (listing_world ''Pagina 1 di 1'' [entry_n] plain_page)
          [(4, 3, 2015, Some 1, None, None, None)] Extractor_init))"
    using main [THEN conjunct2] unanswered by (rule mp)
  show ?thesis
    using unanswered titles scraped addressed by (intro conjI)
qed

text \<open>
  A collected article can have an empty title: the page's heading is there and
  holds no text.
\<close>

theorem empty_title_is_collected:
  "\<not> list_all (\<lambda>a. url a \<noteq> [] \<and> title a \<noteq> [])
       (articles (extract_many (listing_world ''Pagina 1 di 1'' [entry_n] untitled_page)
          [(4, 3, 2015, Some 1, None, None, None)] Extractor_init))"
  by code_simp

section \<open>The dates of a span\<close>

lemma days_in_month_bounds: "28 \<le> days_in_month y m \<and> days_in_month y m \<le> 31"
  by (simp add: days_in_month_def)

lemma date_less_irrefl: "\<not> date_less a a"
  by (simp add: date_less_def)

lemma date_less_trans: "date_less a b \<Longrightarrow> date_less b c \<Longrightarrow> date_less a c"
  by (auto simp: date_less_def)

lemma date_less_total:
  fixes a b :: date
  shows "a = b \<or> date_less a b \<or> date_less b a"
  by (cases a, cases b) (auto simp: date_less_def)

lemma add_day_greater: "date_less c (add_day c)"
  by (simp add: date_less_def add_day_def)

text \<open>Below a valid end date the next day is a date again: the sum cannot overflow.\<close>

lemma add_day_valid:
  assumes "valid_date c" and "valid_date e" and "date_less c e"
  shows "valid_date (add_day c)"
proof (cases "day c < days_in_month (year c) (month c)")
  case True
  then show ?thesis
    using assms(1) by (simp add: valid_date_def add_day_def)
next
  case False
  then have last_day: "day c = days_in_month (year c) (month c)"
    using assms(1) by (simp add: valid_date_def)
  show ?thesis
  proof (cases "month c < 12")
    case True
    then show ?thesis
      using assms(1) False days_in_month_bounds [of "year c" "month c + 1"]
      by (simp add: valid_date_def add_day_def)
  next
    case no_month: False
    then have december: "month c = 12"
      using assms(1) by (simp add: valid_date_def)
    then have "day c = 31"
      using last_day by (simp add: days_in_month_def)
    moreover have "day e \<le> 31" "month e \<le> 12" "year e \<le> 9999"
      using assms(2) days_in_month_bounds [of "year e" "month e"]
      by (simp_all add: valid_date_def)
    ultimately have "year c < year e"
      using assms(3) december by (auto simp: date_less_def)
    then show ?thesis
      using assms(1) \<open>year e \<le> 9999\<close> False no_month
        days_in_month_bounds [of "year c + 1" 1]
      by (simp add: valid_date_def add_day_def)
  qed
qed

lemma date_less_iff:
  "date_less a b \<longleftrightarrow>
     year a < year b
     \<or> (year a = year b \<and> (month a < month b \<or> (month a = month b \<and> day a < day b)))"
  by (simp add: date_less_def)

text \<open>The order of dates on plain numbers, for the three shapes of the next day.\<close>

lemma lex_next_day:
  fixes yc mc dc yx mx dx :: int
  assumes "yc < yx \<or> (yc = yx \<and> (mc < mx \<or> (mc = mx \<and> dc < dx)))"
  shows "\<not> (yx < yc \<or> (yx = yc \<and> (mx < mc \<or> (mx = mc \<and> dx < dc + 1))))"
  using assms by arith

lemma lex_next_month:
  fixes yc mc dc yx mx dx :: int
  assumes "yc < yx \<or> (yc = yx \<and> (mc < mx \<or> (mc = mx \<and> dc < dx)))"
    and "yx = yc \<and> mx = mc \<longrightarrow> dx \<le> dc" and "1 \<le> dx"
  shows "\<not> (yx < yc \<or> (yx = yc \<and> (mx < mc + 1 \<or> (mx = mc + 1 \<and> dx < 1))))"
  using assms by arith

lemma lex_next_year:
  fixes yc dc yx mx dx :: int
  assumes "yc < yx \<or> (yc = yx \<and> (12 < mx \<or> (12 = mx \<and> dc < dx)))"
    and "yx = yc \<and> mx = 12 \<longrightarrow> dx \<le> dc" and "1 \<le> dx" and "1 \<le> mx" and "mx \<le> 12"
  shows "\<not> (yx < yc + 1 \<or> (yx = yc + 1 \<and> (mx < 1 \<or> (mx = 1 \<and> dx < 1))))"
  using assms by arith

text \<open>No date lies between a date and the next day.\<close>

lemma add_day_least:
  assumes "valid_date c" and "valid_date x" and "date_less c x"
  shows "\<not> date_less x (add_day c)"
proof -
  have less: "year c < year x
      \<or> (year c = year x \<and> (month c < month x \<or> (month c = month x \<and> day c < day x)))"
    using assms(3) by (simp add: date_less_iff)
  have x_day: "1 \<le> day x" "day x \<le> days_in_month (year x) (month x)"
    and x_month: "1 \<le> month x" "month x \<le> 12"
    using assms(2) by (simp_all add: valid_date_def)
  show ?thesis
  proof (cases "day c < days_in_month (year c) (month c)")
    case True
    then have "year (add_day c) = year c" "month (add_day c) = month c"
      "day (add_day c) = day c + 1"
      by (simp_all add: add_day_def)
    then show ?thesis
      unfolding date_less_iff using lex_next_day [OF less] by simp
  next
    case False
    then have last_day: "day c = days_in_month (year c) (month c)"
      using assms(1) by (simp add: valid_date_def)
    have same: "year x = year c \<and> month x = month c \<longrightarrow> day x \<le> day c"
      using x_day(2) last_day by auto
    show ?thesis
    proof (cases "month c < 12")
      case True
      then have "year (add_day c) = year c" "month (add_day c) = month c + 1"
        "day (add_day c) = 1"
        using False by (simp_all add: add_day_def)
      then show ?thesis
        unfolding date_less_iff using lex_next_month [OF less same x_day(1)] by simp
    next
      case no_month: False
      then have december: "month c = 12"
        using assms(1) by (simp add: valid_date_def)
      have "year (add_day c) = year c + 1" "month (add_day c) = 1" "day (add_day c) = 1"
        using False no_month by (simp_all add: add_day_def)
      then show ?thesis
        unfolding date_less_iff
        using lex_next_year [OF less [unfolded december] same [unfolded december]
            x_day(1) x_month]
        by simp
    qed
  qed
qed

lemma datespan_lower:
  "x \<in> set (datespan c e) \<Longrightarrow> x = c \<or> date_less c x"
proof (induction c e rule: datespan.induct)
  case (1 c e)
  show ?case
  proof (cases "date_less c e")
    case True
    then have "x = c \<or> x \<in> set (datespan (add_day c) e)"
      using "1.prems" by (simp add: datespan.simps [of c e])
    then show ?thesis
      using "1.IH" [OF True] add_day_greater [of c] date_less_trans [of c "add_day c" x]
      by auto
  next
    case False
    then show ?thesis
      using "1.prems" by (simp add: datespan.simps [of c e])
  qed
qed

lemma datespan_sorted: "sorted_wrt date_less (datespan c e)"
proof (induction c e rule: datespan.induct)
  case (1 c e)
  show ?case
  proof (cases "date_less c e")
    case True
    have "date_less c x" if "x \<in> set (datespan (add_day c) e)" for x
      using datespan_lower [OF that] add_day_greater [of c]
        date_less_trans [of c "add_day c" x]
      by auto
    then show ?thesis
      using "1.IH" [OF True] True by (simp add: datespan.simps [of c e])
  next
    case False
    then show ?thesis by (simp add: datespan.simps [of c e])
  qed
qed

lemma datespan_set:
  assumes "valid_date c" and "valid_date e"
  shows "set (datespan c e) = {x. valid_date x \<and> \<not> date_less x c \<and> date_less x e}"
  using assms
proof (induction c e rule: datespan.induct)
  case (1 c e)
  show ?case
  proof (cases "date_less c e")
    case True
    have next_valid: "valid_date (add_day c)"
      using add_day_valid [OF "1.prems" True] .
    have IH: "set (datespan (add_day c) e)
              = {x. valid_date x \<and> \<not> date_less x (add_day c) \<and> date_less x e}"
      using "1.IH" [OF True next_valid "1.prems"(2)] .
    have unfold: "set (datespan c e) = insert c (set (datespan (add_day c) e))"
      using True by (simp add: datespan.simps [of c e])
    show ?thesis
    proof (rule set_eqI)
      fix x
      show "x \<in> set (datespan c e)
            \<longleftrightarrow> x \<in> {x. valid_date x \<and> \<not> date_less x c \<and> date_less x e}"
      proof
        assume "x \<in> set (datespan c e)"
        then consider "x = c" | "x \<in> set (datespan (add_day c) e)"
          using unfold by auto
        then show "x \<in> {x. valid_date x \<and> \<not> date_less x c \<and> date_less x e}"
        proof cases
          case 1
          then show ?thesis
            using "1.prems"(1) True date_less_irrefl by simp
        next
          case 2
          then have x: "valid_date x" "\<not> date_less x (add_day c)" "date_less x e"
            using IH by auto
          have "\<not> date_less x c"
            using x(2) date_less_trans [of x c "add_day c"] add_day_greater [of c] by auto
          then show ?thesis using x by simp
        qed
      next
        assume "x \<in> {x. valid_date x \<and> \<not> date_less x c \<and> date_less x e}"
        then have x: "valid_date x" "\<not> date_less x c" "date_less x e"
          by auto
        show "x \<in> set (datespan c e)"
        proof (cases "x = c")
          case True
          then show ?thesis using unfold by simp
        next
          case False
          then have "date_less c x"
            using x(2) date_less_total [of c x] by auto
          then have "\<not> date_less x (add_day c)"
            using add_day_least [OF "1.prems"(1) x(1)] by simp
          then show ?thesis
            using x IH unfold by simp
        qed
      qed
    qed
  next
    case False
    have "\<not> (\<not> date_less x c \<and> date_less x e)" for x
      using False date_less_total [of c x] date_less_trans [of c x e] by auto
    then show ?thesis
      using False by (simp add: datespan.simps [of c e])
  qed
qed

lemma mk_date_valid: "mk_date y m d = Inr c \<Longrightarrow> valid_date c"
  by (auto simp: mk_date_def split: if_splits)

section \<open>What the log tells of a traversal\<close>

lemma infos_visit_entry: "infos (snd (visit_entry W e ex)) = infos ex"
  by (auto simp: visit_entry_def infos_def split: sum.splits exn.splits)

lemma infos_extract_page: "infos (snd (extract_page W d m y p ex)) = infos ex"
proof (cases "get_page_html W (archive_url y m d p)")
  case None
  then show ?thesis by (simp add: extract_page_def)
next
  case (Some data)
  have "infos (snd (run_steps
          (map (visit_entry W) (find_all ''article'' (BeautifulSoup W data))) ex)) = infos ex"
    by (rule run_steps_field) (auto simp: infos_visit_entry)
  then show ?thesis using Some by (simp add: extract_page_def)
qed

text \<open>A day's traversal writes its one notice once the archive size is known.\<close>

lemma infos_extract_day:
  "infos (snd (extract_day W d m y ex))
     = (case archive_size W d m y of
          Inl e \<Rightarrow> infos ex
        | Inr n \<Rightarrow> infos ex @ [day_notice \<lparr>year = y, month = m, day = d\<rparr>])"
proof (cases "archive_size W d m y")
  case (Inl e)
  then show ?thesis by (simp add: extract_day_def)
next
  case (Inr n)
  define ex1 where
    "ex1 = ex\<lparr>logger := logger ex @
               [Info (''Extracting articles for '' @ show_int d @ ''-'' @ show_int m
                      @ ''-'' @ show_int y @ ''...'')]\<rparr>"
  have "infos (snd (run_steps (map (extract_page W d m y) [1..n]) ex1)) = infos ex1"
    by (rule run_steps_field) (auto simp: infos_extract_page)
  moreover have "infos ex1 = infos ex @ [day_notice \<lparr>year = y, month = m, day = d\<rparr>]"
    by (simp add: ex1_def infos_def day_notice_def)
  ultimately show ?thesis
    using Inr by (simp add: extract_day_def ex1_def)
qed

lemma extract_day_Inr:
  assumes "fst (extract_day W d m y ex) = Inr u"
  shows "\<exists>n. archive_size W d m y = Inr n"
  using assms by (cases "archive_size W d m y") (simp_all add: extract_day_def)

lemma date_fields: "\<lparr>year = year c, month = month c, day = day c\<rparr> = (c :: date)"
  by (cases c) simp

text \<open>
  Over a list of dates: the notices written are those of the first dates of the
  list, in its order, and those of the whole list when the traversal returns.
\<close>

lemma infos_days:
  "(\<exists>k. infos (snd (run_steps
            (map (\<lambda>curr. extract_day W (day curr) (month curr) (year curr)) ds) ex))
          = infos ex @ map day_notice (take k ds))
   \<and> (fst (run_steps
            (map (\<lambda>curr. extract_day W (day curr) (month curr) (year curr)) ds) ex) = Inr ()
        \<longrightarrow> infos (snd (run_steps
              (map (\<lambda>curr. extract_day W (day curr) (month curr) (year curr)) ds) ex))
            = infos ex @ map day_notice ds)"
proof (induction ds arbitrary: ex)
  case Nil
  then show ?case by simp
next
  case (Cons c ds)
  define step where "step = (\<lambda>curr :: date. extract_day W (day curr) (month curr) (year curr))"
  obtain r ex1 where first: "step c ex = (r, ex1)"
    by (cases "step c ex") auto
  have noted: "infos ex1 = (case archive_size W (day c) (month c) (year c) of
                  Inl e \<Rightarrow> infos ex | Inr n \<Rightarrow> infos ex @ [day_notice c])"
    using infos_extract_day [of W "day c" "month c" "year c" ex] first
    by (simp add: step_def date_fields split: sum.splits)
  show ?case
  proof (cases r)
    case (Inl e)
    then have result: "run_steps (map step (c # ds)) ex = (Inl e, ex1)"
      using first by simp
    have "\<exists>k. infos ex1 = infos ex @ map day_notice (take k (c # ds))"
    proof (cases "archive_size W (day c) (month c) (year c)")
      case (Inl x)
      then have "infos ex1 = infos ex @ map day_notice (take 0 (c # ds))"
        using noted by simp
      then show ?thesis by blast
    next
      case (Inr n)
      then have "infos ex1 = infos ex @ map day_notice (take (Suc 0) (c # ds))"
        using noted by simp
      then show ?thesis by blast
    qed
    then show ?thesis
      unfolding step_def [symmetric] result by simp
  next
    case (Inr u)
    then have result: "run_steps (map step (c # ds)) ex = run_steps (map step ds) ex1"
      using first by simp
    have "fst (extract_day W (day c) (month c) (year c) ex) = Inr u"
      using first Inr by (simp add: step_def)
    then have logged: "infos ex1 = infos ex @ [day_notice c]"
      using noted extract_day_Inr [of W "day c" "month c" "year c" ex u] by auto
    obtain k where k: "infos (snd (run_steps (map step ds) ex1))
                      = infos ex1 @ map day_notice (take k ds)"
      using Cons.IH [of ex1] unfolding step_def [symmetric] by auto
    have whole: "fst (run_steps (map step ds) ex1) = Inr ()
                 \<longrightarrow> infos (snd (run_steps (map step ds) ex1))
                     = infos ex1 @ map day_notice ds"
      using Cons.IH [of ex1] unfolding step_def [symmetric] by auto
    have "infos (snd (run_steps (map step ds) ex1))
          = infos ex @ map day_notice (take (Suc k) (c # ds))"
      using k logged by simp
    then have some: "\<exists>k. infos (snd (run_steps (map step ds) ex1))
                       = infos ex @ map day_notice (take k (c # ds))"
      by blast
    have "fst (run_steps (map step ds) ex1) = Inr ()
          \<longrightarrow> infos (snd (run_steps (map step ds) ex1))
              = infos ex @ map day_notice (c # ds)"
      using whole logged by simp
    then show ?thesis
      unfolding step_def [symmetric] result using some by blast
  qed
qed

lemma extract_articles_day:
  "(\<lambda>curr :: date. extract_articles W (day curr) (month curr) (year curr) None None None None)
     = (\<lambda>curr. extract_day W (day curr) (month curr) (year curr))"
  by (rule ext, rule ext) (simp add: extract_articles_def)

lemma extract_articles_range:
  assumes "mk_date y m d = Inr D1" and "mk_date ye me de = Inr D2"
  shows "extract_articles W d m y None (Some de) (Some me) (Some ye) ex
         = run_steps
             (map (\<lambda>curr. extract_day W (day curr) (month curr) (year curr)) (datespan D1 D2))
             ex"
  using assms by (simp add: extract_articles_def extract_range_def)

text \<open>
  C8. For two dates \<open>D1\<close> and \<open>D2\<close> the range traversal is the day traversal run
  over \<open>datespan D1 D2\<close> in order, ending at the first day that raises. That list
  is strictly ascending and holds exactly the calendar dates from \<open>D1\<close> up to, not
  including, \<open>D2\<close>. On the log: the day notices a range traversal adds are those of
  the first dates of the list, one each and in its order, and those of every date of
  the list when the traversal returns.
\<close>

theorem range_runs_day_per_date:
  assumes "mk_date y m d = Inr D1" and "mk_date ye me de = Inr D2"
  shows "extract_articles W d m y None (Some de) (Some me) (Some ye) ex
           = run_steps
               (map (\<lambda>curr. extract_articles W (day curr) (month curr) (year curr)
                              None None None None)
                  (datespan D1 D2))
               ex
         \<and> sorted_wrt date_less (datespan D1 D2)
         \<and> set (datespan D1 D2) = {c. valid_date c \<and> \<not> date_less c D1 \<and> date_less c D2}
         \<and> (\<exists>k. infos (snd (extract_articles W d m y None (Some de) (Some me) (Some ye) ex))
                  = infos ex @ map day_notice (take k (datespan D1 D2)))
         \<and> (fst (extract_articles W d m y None (Some de) (Some me) (Some ye) ex) = Inr ()
             \<longrightarrow> infos (snd (extract_articles W d m y None (Some de) (Some me) (Some ye) ex))
                 = infos ex @ map day_notice (datespan D1 D2))"
proof -
  have run: "extract_articles W d m y None (Some de) (Some me) (Some ye) ex
         = run_steps
             (map (\<lambda>curr. extract_day W (day curr) (month curr) (year curr)) (datespan D1 D2))
             ex"
    using extract_articles_range [OF assms] .
  have first: "extract_articles W d m y None (Some de) (Some me) (Some ye) ex
           = run_steps
               (map (\<lambda>curr. extract_articles W (day curr) (month curr) (year curr)
                              None None None None)
                  (datespan D1 D2))
               ex"
    unfolding extract_articles_day using run .
  have members: "set (datespan D1 D2)
                 = {c. valid_date c \<and> \<not> date_less c D1 \<and> date_less c D2}"
    using datespan_set [OF mk_date_valid [OF assms(1)] mk_date_valid [OF assms(2)]] .
  show ?thesis
    using first datespan_sorted [of D1 D2] members
      infos_days [of W "datespan D1 D2" ex, folded run]
    by blast
qed

theorem range_runs_day_per_date_witness:
  "mk_date 2020 2 27 = Inr \<lparr>year = 2020, month = 2, day = 27\<rparr>
   \<and> mk_date 2020 3 2 = Inr \<lparr>year = 2020, month = 3, day = 2\<rparr>
   \<and> datespan \<lparr>year = 2020, month = 2, day = 27\<rparr> \<lparr>year = 2020, month = 3, day = 2\<rparr>
       = [\<lparr>year = 2020, month = 2, day = 27\<rparr>, \<lparr>year = 2020, month = 2, day = 28\<rparr>,
          \<lparr>year = 2020, month = 2, day = 29\<rparr>, \<lparr>year = 2020, month = 3, day = 1\<rparr>]
   \<and> sorted_wrt date_less
         (datespan \<lparr>year = 2020, month = 2, day = 27\<rparr> \<lparr>year = 2020, month = 3, day = 2\<rparr>)
   \<and> fst (extract_articles offline 27 2 2020 None (Some 2) (Some 3) (Some 2020)
            Extractor_init) = Inr ()
   \<and> infos (snd (extract_articles offline 27 2 2020 None (Some 2) (Some 3) (Some 2020)
                   Extractor_init))
       = infos Extractor_init
         @ map day_notice
             (datespan \<lparr>year = 2020, month = 2, day = 27\<rparr>
                \<lparr>year = 2020, month = 3, day = 2\<rparr>)"
proof -
  have d1: "mk_date 2020 2 27 = Inr \<lparr>year = 2020, month = 2, day = 27\<rparr>"
    by code_simp
  have d2: "mk_date 2020 3 2 = Inr \<lparr>year = 2020, month = 3, day = 2\<rparr>"
    by code_simp
  have span: "datespan \<lparr>year = 2020, month = 2, day = 27\<rparr> \<lparr>year = 2020, month = 3, day = 2\<rparr>
       = [\<lparr>year = 2020, month = 2, day = 27\<rparr>, \<lparr>year = 2020, month = 2, day = 28\<rparr>,
          \<lparr>year = 2020, month = 2, day = 29\<rparr>, \<lparr>year = 2020, month = 3, day = 1\<rparr>]"
    by code_simp
  have returns: "fst (extract_articles offline 27 2 2020 None (Some 2) (Some 3) (Some 2020)
            Extractor_init) = Inr ()"
    by code_simp
  note main = range_runs_day_per_date [OF d1 d2, of offline Extractor_init]
  have ascending: "sorted_wrt date_less
         (datespan \<lparr>year = 2020, month = 2, day = 27\<rparr> \<lparr>year = 2020, month = 3, day = 2\<rparr>)"
    using main [THEN conjunct2, THEN conjunct1] .
  have notices: "infos (snd (extract_articles offline 27 2 2020 None (Some 2) (Some 3)
                   (Some 2020) Extractor_init))
       = infos Extractor_init
         @ map day_notice
             (datespan \<lparr>year = 2020, month = 2, day = 27\<rparr>
                \<lparr>year = 2020, month = 3, day = 2\<rparr>)"
    using main [THEN conjunct2, THEN conjunct2, THEN conjunct2, THEN conjunct2] returns
    by (rule mp)
  show ?thesis
    using d1 d2 span ascending returns notices by (intro conjI)
qed

text \<open>
  A day that raises ends the range: from 4 to 6 March 2015, with no pagination
  control on the first listing page of the 4th, \<open>archive_size\<close> raises on the 4th,
  the range traversal ends with that exception and the log holds no notice at all,
  though the 5th is a date of the span and its own traversal writes a notice.
\<close>

theorem raising_day_ends_range:
  "mk_date 2015 3 4 = Inr \<lparr>year = 2015, month = 3, day = 4\<rparr>
   \<and> mk_date 2015 3 6 = Inr \<lparr>year = 2015, month = 3, day = 6\<rparr>
   \<and> datespan \<lparr>year = 2015, month = 3, day = 4\<rparr> \<lparr>year = 2015, month = 3, day = 6\<rparr>
       = [\<lparr>year = 2015, month = 3, day = 4\<rparr>, \<lparr>year = 2015, month = 3, day = 5\<rparr>]
   \<and> extract_articles two_day_world 4 3 2015 None (Some 6) (Some 3) (Some 2015)
         Extractor_init
       = (Inl AttributeError, \<lparr>articles = [], logger = []\<rparr>)
   \<and> archive_size two_day_world 4 3 2015 = Inl AttributeError
   \<and> logger (snd (extract_articles two_day_world 5 3 2015 None None None None
                    Extractor_init))
       = [Info ''Extracting articles for 5-3-2015...'']"
  by code_simp

section \<open>Parsing twice\<close>
























end
